theory Spec2Isabelle
  imports Complex_Main "HOL-Library.Multiset" "HOL-Library.Char_ord" "HOL-Library.List_Lexorder"
    "HOL-Library.Product_Lexorder"
begin

section \<open>Python values\<close>

text \<open>
  The pipeline of \<^verbatim>\<open>arkts_badcase_pipeline.py\<close> and its full-sweep sibling
  \<^verbatim>\<open>arkts_full_data_processor.py\<close> work on untyped JSON. A Python \<^verbatim>\<open>float\<close> is a
  finite number, an infinity or NaN; rounding of finite results is not modelled (finite
  floats are reals). Strings are lists of 8-bit characters read as code points; case
  mapping and whitespace beyond that range are outside the model.
\<close>

datatype py_error = KeyError | TypeError | ValueError | OverflowError | AttributeError
  | IndexError | SystemExit

datatype pyfloat = Fin real | PInf | NInf | NaN

datatype json = JNull | JBool bool | JInt int | JFloat pyfloat | JStr string
  | JArr "json list" | JObj "(string \<times> json) list"

text \<open>Comparison \<^verbatim>\<open>a < b\<close> of two floats: false as soon as one side is NaN.\<close>

fun py_lt :: "pyfloat \<Rightarrow> pyfloat \<Rightarrow> bool" where
  "py_lt (Fin a) (Fin b) = (a < b)"
| "py_lt NaN _ = False"
| "py_lt _ NaN = False"
| "py_lt NInf NInf = False"
| "py_lt NInf _ = True"
| "py_lt _ NInf = False"
| "py_lt PInf _ = False"
| "py_lt _ PInf = True"

text \<open>
  The builtins \<^verbatim>\<open>min(a, b)\<close> and \<^verbatim>\<open>max(a, b)\<close> keep the first argument unless the
  second one is strictly smaller (larger).
\<close>

definition py_min2 :: "pyfloat \<Rightarrow> pyfloat \<Rightarrow> pyfloat" where
  "py_min2 a b = (if py_lt b a then b else a)"

definition py_max2 :: "pyfloat \<Rightarrow> pyfloat \<Rightarrow> pyfloat" where
  "py_max2 a b = (if py_lt a b then b else a)"

text \<open>
  \<^verbatim>\<open>max(lo, min(hi, x))\<close> for finite bounds. The result is always finite
  (lemma \<open>clamp_is_max_min\<close> below), so it is returned as a real.
\<close>

definition clamp :: "real \<Rightarrow> real \<Rightarrow> pyfloat \<Rightarrow> real" where
  "clamp lo hi x = (case py_max2 (Fin lo) (py_min2 (Fin hi) x) of Fin r \<Rightarrow> r | _ \<Rightarrow> lo)"

text \<open>Truthiness of a value, as \<^verbatim>\<open>if v:\<close> and \<^verbatim>\<open>v or d\<close> test it.\<close>

fun truthy :: "json \<Rightarrow> bool" where
  "truthy JNull = False"
| "truthy (JBool b) = b"
| "truthy (JInt i) = (i \<noteq> 0)"
| "truthy (JFloat f) = (f \<noteq> Fin 0)"
| "truthy (JStr s) = (s \<noteq> [])"
| "truthy (JArr xs) = (xs \<noteq> [])"
| "truthy (JObj kvs) = (kvs \<noteq> [])"

text \<open>
  \<^verbatim>\<open>obj[key]\<close> and \<^verbatim>\<open>obj.get(key, default)\<close> with a string key. A \<open>JObj\<close> holds the items of
  a dict in insertion order. Only a dict has \<^verbatim>\<open>get\<close>; a string subscript on anything but a
  dict raises.
\<close>

fun py_getitem :: "json \<Rightarrow> string \<Rightarrow> py_error + json" where
  "py_getitem (JObj kvs) k = (case map_of kvs k of None \<Rightarrow> Inl KeyError | Some v \<Rightarrow> Inr v)"
| "py_getitem _ k = Inl TypeError"

fun py_get :: "json \<Rightarrow> string \<Rightarrow> json \<Rightarrow> py_error + json" where
  "py_get (JObj kvs) k d = (case map_of kvs k of None \<Rightarrow> Inr d | Some v \<Rightarrow> Inr v)"
| "py_get _ k d = Inl AttributeError"

text \<open>
  \<^verbatim>\<open>str(v)\<close>. For numbers and containers the text is Python's \<^verbatim>\<open>repr\<close>, taken as the
  parameter \<open>repr\<close>.
\<close>

fun py_str :: "(json \<Rightarrow> string) \<Rightarrow> json \<Rightarrow> string" where
  "py_str repr (JStr s) = s"
| "py_str repr JNull = ''None''"
| "py_str repr (JBool b) = (if b then ''True'' else ''False'')"
| "py_str repr v = repr v"

text \<open>
  \<^verbatim>\<open>float(v)\<close>. An int converts unless it rounds to \<open>2 ^ 1024\<close> or beyond; a string is
  parsed by the library (parameter \<open>fstr\<close>, \<open>None\<close> where it raises \<^verbatim>\<open>ValueError\<close>).
\<close>

fun py_float :: "(string \<Rightarrow> pyfloat option) \<Rightarrow> json \<Rightarrow> py_error + pyfloat" where
  "py_float fstr (JBool b) = Inr (Fin (if b then 1 else 0))"
| "py_float fstr (JInt i) =
     (if \<bar>i\<bar> \<ge> 2 ^ 1024 - 2 ^ 970 then Inl OverflowError else Inr (Fin (of_int i)))"
| "py_float fstr (JFloat f) = Inr f"
| "py_float fstr (JStr s) = (case fstr s of None \<Rightarrow> Inl ValueError | Some f \<Rightarrow> Inr f)"
| "py_float fstr _ = Inl TypeError"

text \<open>Sequencing of two steps that may raise: the first exception wins.\<close>

fun raise_bind :: "'e + 'a \<Rightarrow> ('a \<Rightarrow> 'e + 'b) \<Rightarrow> 'e + 'b" where
  "raise_bind (Inl e) f = Inl e"
| "raise_bind (Inr x) f = f x"

subsection \<open>Strings\<close>

definition is_space :: "char \<Rightarrow> bool" where
  "is_space c = (of_char c \<in> set [9, 10, 11, 12, 13, 28, 29, 30, 31, 32, 133, 160 :: nat])"

definition py_strip :: "string \<Rightarrow> string" where
  "py_strip s = rev (dropWhile is_space (rev (dropWhile is_space s)))"

definition upper_char :: "char \<Rightarrow> char" where
  "upper_char c =
     (case map_of (zip ''abcdefghijklmnopqrstuvwxyz'' ''ABCDEFGHIJKLMNOPQRSTUVWXYZ'') c of
        None \<Rightarrow> c
      | Some u \<Rightarrow> u)"

definition py_upper :: "string \<Rightarrow> string" where
  "py_upper s = map upper_char s"

fun py_join :: "string \<Rightarrow> string list \<Rightarrow> string" where
  "py_join sep [] = []"
| "py_join sep [x] = x"
| "py_join sep (x # y # ys) = x @ sep @ py_join sep (y # ys)"

section \<open>Judgements\<close>

record Judgement =
  decision :: string
  labels :: "string list"
  arkts_score :: real
  quality_score :: real
  confidence :: real
  rationale :: string

definition DECISIONS :: "string list" where
  "DECISIONS = [''KEEP'', ''KEEP_WITH_TAG'', ''REMOVE'']"

subsection \<open>validate_judgement\<close>

text \<open>
  The body of the \<^verbatim>\<open>try\<close> block: it raises (\<open>Inl\<close>), returns \<^verbatim>\<open>None\<close> or returns a
  Judgement. The calls to \<^verbatim>\<open>float\<close> are made in the source's order.
\<close>

definition validate_body ::
  "(json \<Rightarrow> string) \<Rightarrow> (string \<Rightarrow> pyfloat option) \<Rightarrow> json \<Rightarrow> py_error + Judgement option" where
  "validate_body repr fstr obj =
    (case py_getitem obj ''decision'' of
       Inl e \<Rightarrow> Inl e
     | Inr dv \<Rightarrow>
        let d = py_upper (py_strip (py_str repr dv)) in
        if d \<notin> set DECISIONS then Inr None
        else
          (case py_get obj ''labels'' (JArr []) of
             Inl e \<Rightarrow> Inl e
           | Inr lv0 \<Rightarrow>
              let lv = (if lv0 = JNull then JArr [] else lv0) in
              (case lv of
                 JArr ls \<Rightarrow>
                   (case raise_bind (py_get obj ''arkts_score'' (JInt 0)) (py_float fstr) of
                      Inl e \<Rightarrow> Inl e
                    | Inr a \<Rightarrow>
                   (case raise_bind (py_get obj ''quality_score'' (JInt 0)) (py_float fstr) of
                      Inl e \<Rightarrow> Inl e
                    | Inr q \<Rightarrow>
                   (case raise_bind (py_get obj ''confidence'' (JInt 0)) (py_float fstr) of
                      Inl e \<Rightarrow> Inl e
                    | Inr c \<Rightarrow>
                   (case py_get obj ''rationale'' (JStr []) of
                      Inl e \<Rightarrow> Inl e
                    | Inr rv \<Rightarrow>
                       Inr (Some \<lparr>decision = d,
                                  labels = map (py_str repr) ls,
                                  arkts_score = clamp 0 5 a,
                                  quality_score = clamp 0 5 q,
                                  confidence = clamp 0 1 c,
                                  rationale = take 400 (py_str repr rv)\<rparr>)))))
               | _ \<Rightarrow> Inr None)))"

text \<open>\<^verbatim>\<open>except Exception: return None\<close>.\<close>

definition validate_judgement ::
  "(json \<Rightarrow> string) \<Rightarrow> (string \<Rightarrow> pyfloat option) \<Rightarrow> json \<Rightarrow> Judgement option" where
  "validate_judgement repr fstr obj =
    (case validate_body repr fstr obj of Inl e \<Rightarrow> None | Inr r \<Rightarrow> r)"

subsection \<open>consensus\<close>

definition SEVERITY :: "(string \<times> int) list" where
  "SEVERITY = [(''KEEP'', 0), (''KEEP_WITH_TAG'', 1), (''REMOVE'', 2)]"

text \<open>
  \<^verbatim>\<open>vote[d] = vote.get(d, 0) + 1\<close> on a dict that keeps its keys in insertion order.
\<close>

fun vote_incr :: "string \<Rightarrow> (string \<times> nat) list \<Rightarrow> (string \<times> nat) list" where
  "vote_incr d [] = [(d, 1)]"
| "vote_incr d ((k, c) # vs) = (if k = d then (k, c + 1) # vs else (k, c) # vote_incr d vs)"

definition count_votes :: "Judgement list \<Rightarrow> (string \<times> nat) list" where
  "count_votes js = foldl (\<lambda>vote j. vote_incr (decision j) vote) [] js"

text \<open>
  \<^verbatim>\<open>sorted(xs, key=..., reverse=True)\<close>: the stable sort of the reversed list, reversed, so
  that elements with equal keys keep their order.
\<close>

definition py_sorted_rev :: "('a \<Rightarrow> int) \<Rightarrow> 'a list \<Rightarrow> 'a list" where
  "py_sorted_rev key xs = rev (sort_key key (rev xs))"

text \<open>The keys \<^verbatim>\<open>tab[d]\<close> of a list of decisions; the first missing key raises.\<close>

fun with_severity :: "(string \<times> int) list \<Rightarrow> string list \<Rightarrow> py_error + (string \<times> int) list" where
  "with_severity tab [] = Inr []"
| "with_severity tab (d # ds) =
     (case map_of tab d of
        None \<Rightarrow> Inl KeyError
      | Some r \<Rightarrow> (case with_severity tab ds of Inl e \<Rightarrow> Inl e | Inr rs \<Rightarrow> Inr ((d, r) # rs)))"

text \<open>
  The choice of the final decision from the list \<open>tops\<close> of the most voted decisions (\<^verbatim>\<open>top\<close> in the source), for a
  severity table \<open>tab\<close>.
\<close>

definition final_decision_with :: "(string \<times> int) list \<Rightarrow> string list \<Rightarrow> py_error + string" where
  "final_decision_with tab tops =
     (case tops of
        [] \<Rightarrow> Inl IndexError
      | [d] \<Rightarrow> Inr d
      | _ \<Rightarrow>
         (case with_severity tab tops of
            Inl e \<Rightarrow> Inl e
          | Inr ranked \<Rightarrow>
             let final = fst (hd (py_sorted_rev snd ranked)) in
             if length tops > 1 \<and> snd (hd ranked) = snd (last ranked)
             then Inr ''KEEP_WITH_TAG'' else Inr final))"

definition top_decisions :: "Judgement list \<Rightarrow> string list" where
  "top_decisions js =
     (let vote = count_votes js;
          max_votes = Max (set (map snd vote))
      in map fst (filter (\<lambda>(d, c). c = max_votes) vote))"

definition consensus_with :: "(string \<times> int) list \<Rightarrow> Judgement list \<Rightarrow> py_error + Judgement" where
  "consensus_with tab js =
     (if js = [] then
        Inr \<lparr>decision = ''KEEP_WITH_TAG'', labels = [], arkts_score = 3, quality_score = 3,
             confidence = 3 / 10, rationale = ''empty-judgements''\<rparr>
      else
        (case final_decision_with tab (top_decisions js) of
           Inl e \<Rightarrow> Inl e
         | Inr final_decision \<Rightarrow>
            Inr \<lparr>decision = final_decision,
                 labels = sort (remdups (concat (map labels js))),
                 arkts_score = sum_list (map arkts_score js) / real (length js),
                 quality_score = sum_list (map quality_score js) / real (length js),
                 confidence = sum_list (map confidence js) / real (length js),
                 rationale = take 400 (py_join ''; '' (map rationale js))\<rparr>))"

definition consensus :: "Judgement list \<Rightarrow> py_error + Judgement" where
  "consensus js = consensus_with SEVERITY js"

text \<open>The two placeholder judgements of \<^verbatim>\<open>run_one_judgement\<close>.\<close>

definition api_error_judgement :: "string \<Rightarrow> Judgement" where
  "api_error_judgement err =
     \<lparr>decision = ''KEEP_WITH_TAG'', labels = [''API_ERROR''], arkts_score = 3, quality_score = 3,
      confidence = 2 / 10, rationale = take 200 err\<rparr>"

definition parse_error_judgement :: Judgement where
  "parse_error_judgement =
     \<lparr>decision = ''KEEP_WITH_TAG'', labels = [''PARSE_ERROR''], arkts_score = 3, quality_score = 3,
      confidence = 3 / 10, rationale = ''Failed to parse model JSON''\<rparr>"

subsection \<open>Splitting and replacing\<close>

text \<open>
  \<^verbatim>\<open>s.split(sep)\<close> for a non-empty separator: the pieces between the occurrences of
  \<open>sep\<close>, found from left to right without overlap. \<^verbatim>\<open>s.replace(old, new)\<close> joins those
  pieces with \<open>new\<close>.
\<close>

function py_split_from :: "string \<Rightarrow> string \<Rightarrow> string \<Rightarrow> string list" where
  "py_split_from sep acc s =
     (case s of
        [] \<Rightarrow> [rev acc]
      | c # cs \<Rightarrow>
          if sep \<noteq> [] \<and> take (length sep) s = sep
          then rev acc # py_split_from sep [] (drop (length sep) s)
          else py_split_from sep (c # acc) cs)"
  by pat_completeness auto
termination
  by (relation "measure (\<lambda>(sep, acc, s). length s)") auto

declare py_split_from.simps [simp del]

definition py_split :: "string \<Rightarrow> string \<Rightarrow> string list" where
  "py_split sep s = py_split_from sep [] s"

definition py_replace :: "string \<Rightarrow> string \<Rightarrow> string \<Rightarrow> string" where
  "py_replace old new s = py_join new (py_split old s)"

section \<open>Extraction of a JSON object from the judge's text\<close>

definition FENCE :: string where
  "FENCE = [CHR 0x60, CHR 0x60, CHR 0x60]"

text \<open>
  The code fence step: if the text starts with a fence and splits into at least three
  parts, the parts between the first and the last are joined by newlines and stripped.
\<close>

definition strip_fences :: "string \<Rightarrow> string" where
  "strip_fences s =
     (if take 3 s = FENCE then
        (let parts = py_split FENCE s
         in if length parts \<ge> 3 then py_strip (py_join [CHR 0x0A] (tl (butlast parts))) else s)
      else s)"

text \<open>
  \<^verbatim>\<open>JSON_LINE_RE.search(s)\<close> for the pattern \<^verbatim>\<open>\{.*\}\<close> with \<^verbatim>\<open>DOTALL\<close>: the match
  starts at the first opening brace and, being greedy, ends at the last closing brace after
  it; there is no match when no closing brace follows the first opening one.
\<close>

definition json_line_search :: "string \<Rightarrow> string option" where
  "json_line_search s =
     (let t = dropWhile (\<lambda>c. c \<noteq> CHR ''{'') s;
          m = rev (dropWhile (\<lambda>c. c \<noteq> CHR ''}'') (rev t))
      in if m = [] then None else Some m)"

text \<open>
  The inner \<^verbatim>\<open>for\<close> loop of the fallback, started at an opening brace with \<open>depth = 0\<close>:
  the text up to the brace that brings the depth back to zero, if there is one.
\<close>

fun balanced_chunk :: "int \<Rightarrow> string \<Rightarrow> string option" where
  "balanced_chunk depth [] = None"
| "balanced_chunk depth (c # cs) =
     (if c = CHR ''{'' then map_option ((#) c) (balanced_chunk (depth + 1) cs)
      else if c = CHR ''}'' then
        (if depth - 1 = 0 then Some [c]
         else map_option ((#) c) (balanced_chunk (depth - 1) cs))
      else map_option ((#) c) (balanced_chunk depth cs))"

text \<open>
  The outer \<^verbatim>\<open>while\<close> loop: every opening brace in turn is a start; a balanced chunk that
  parses is returned, one that does not parse (or a start with no balanced chunk) moves on
  to the next opening brace. \<open>loads\<close> is \<^verbatim>\<open>json.loads\<close>, \<open>None\<close> where it raises.
\<close>

fun brace_matching :: "(string \<Rightarrow> json option) \<Rightarrow> string \<Rightarrow> json option" where
  "brace_matching loads [] = None"
| "brace_matching loads (c # cs) =
     (if c = CHR ''{'' then
        (case balanced_chunk 0 (c # cs) of
           None \<Rightarrow> brace_matching loads cs
         | Some chunk \<Rightarrow>
            (case loads chunk of Some v \<Rightarrow> Some v | None \<Rightarrow> brace_matching loads cs))
      else brace_matching loads cs)"

definition extract_json_object :: "(string \<Rightarrow> json option) \<Rightarrow> string \<Rightarrow> json option" where
  "extract_json_object loads txt =
     (let s = strip_fences (py_strip txt)
      in case (case json_line_search s of None \<Rightarrow> None | Some m \<Rightarrow> loads m) of
           Some v \<Rightarrow> Some v
         | None \<Rightarrow> brace_matching loads s)"

text \<open>
  The step of \<^verbatim>\<open>run_one_judgement\<close> from the raw text to a Judgement: extraction, then
  validation of a truthy object, and the \<^verbatim>\<open>PARSE_ERROR\<close> placeholder when either gives
  nothing.
\<close>

definition judgement_of_text ::
  "(string \<Rightarrow> json option) \<Rightarrow> (json \<Rightarrow> string) \<Rightarrow> (string \<Rightarrow> pyfloat option) \<Rightarrow> string \<Rightarrow> Judgement" where
  "judgement_of_text loads repr fstr raw_text =
     (case (case extract_json_object loads raw_text of
              None \<Rightarrow> None
            | Some obj \<Rightarrow> if truthy obj then validate_judgement repr fstr obj else None) of
        None \<Rightarrow> parse_error_judgement
      | Some j \<Rightarrow> j)"

section \<open>The judgements store and the full sweep\<close>

subsection \<open>load_processed_ids_from_judgements\<close>

text \<open>
  The judgements file as the function reads it: missing, readable as a list of lines, or
  raising an I/O or decoding error after some lines were read (the outer
  \<^verbatim>\<open>except Exception: pass\<close> keeps what was collected).
\<close>

datatype jfile = Missing | Lines "string list" | Broken "string list"

text \<open>Lists and dicts are unhashable: \<^verbatim>\<open>set.add\<close> raises \<^verbatim>\<open>TypeError\<close> on them.\<close>

fun hashable :: "json \<Rightarrow> bool" where
  "hashable (JArr xs) = False"
| "hashable (JObj kvs) = False"
| "hashable v = True"

definition set_add :: "json \<Rightarrow> json set \<Rightarrow> py_error + json set" where
  "set_add v ids = (if hashable v then Inr (insert v ids) else Inl TypeError)"

text \<open>
  One round of the \<^verbatim>\<open>for line in f\<close> loop. A line that is blank after stripping is
  skipped; the inner \<^verbatim>\<open>try\<close> turns a parse failure (\<open>loads\<close> gives \<open>None\<close>) and every
  exception of \<^verbatim>\<open>data.get\<close> and \<^verbatim>\<open>processed_ids.add\<close> into \<^verbatim>\<open>continue\<close>.
\<close>

definition add_processed_id :: "(string \<Rightarrow> json option) \<Rightarrow> json set \<Rightarrow> string \<Rightarrow> json set" where
  "add_processed_id loads ids line =
     (let l = py_strip line in
      if l = [] then ids
      else
        (case loads l of
           None \<Rightarrow> ids
         | Some data \<Rightarrow>
            (case raise_bind (py_get data ''item_id'' JNull)
                    (\<lambda>item_id. if truthy item_id then set_add item_id ids else Inr ids) of
               Inl e \<Rightarrow> ids
             | Inr ids' \<Rightarrow> ids')))"

definition load_processed_ids_from_judgements :: "(string \<Rightarrow> json option) \<Rightarrow> jfile \<Rightarrow> json set" where
  "load_processed_ids_from_judgements loads f =
     (case f of
        Missing \<Rightarrow> {}
      | Lines ls \<Rightarrow> foldl (add_processed_id loads) {} ls
      | Broken ls \<Rightarrow> foldl (add_processed_id loads) {} ls)"

subsection \<open>run_one_judgement\<close>

text \<open>
  The library functions the sweep calls: \<^verbatim>\<open>json.loads\<close> (\<open>None\<close> where it raises),
  \<^verbatim>\<open>json.dumps\<close>, \<^verbatim>\<open>repr\<close> of numbers and containers, \<^verbatim>\<open>float\<close> of a string,
  the hexadecimal SHA-1 digest, and the text of an exception.
\<close>

record pylib =
  json_loads :: "string \<Rightarrow> json option"
  json_dumps :: "json \<Rightarrow> string"
  py_repr :: "json \<Rightarrow> string"
  float_of_str :: "string \<Rightarrow> pyfloat option"
  sha1_hexdigest :: "string \<Rightarrow> string"
  exc_text :: "py_error \<Rightarrow> string"

record ItemResult = Judgement +
  item_id :: string
  replica :: int
  model :: string
  temperature :: real
  prompt_tokens :: json
  completion_tokens :: json
  total_tokens :: json
  raw_response :: json

definition item_result ::
  "Judgement \<Rightarrow> string \<Rightarrow> int \<Rightarrow> string \<Rightarrow> real \<Rightarrow> json \<Rightarrow> json \<Rightarrow> json \<Rightarrow> json \<Rightarrow> ItemResult" where
  "item_result j iid rep m t pt ct tt raw =
     \<lparr>decision = decision j, labels = labels j, arkts_score = arkts_score j,
      quality_score = quality_score j, confidence = confidence j, rationale = rationale j,
      item_id = iid, replica = rep, model = m, temperature = t,
      prompt_tokens = pt, completion_tokens = ct, total_tokens = tt, raw_response = raw\<rparr>"

text \<open>\<^verbatim>\<open>"error" in resp\<close>: a key of a dict, a substring of a string, an element of a list.\<close>

fun has_substring :: "string \<Rightarrow> string \<Rightarrow> bool" where
  "has_substring p [] = (p = [])"
| "has_substring p (c # cs) = (take (length p) (c # cs) = p \<or> has_substring p cs)"

fun contains_error :: "json \<Rightarrow> py_error + bool" where
  "contains_error (JObj kvs) = Inr (map_of kvs ''error'' \<noteq> None)"
| "contains_error (JStr s) = Inr (has_substring ''error'' s)"
| "contains_error (JArr xs) = Inr (JStr ''error'' \<in> set xs)"
| "contains_error v = Inl TypeError"

text \<open>\<^verbatim>\<open>v[0]\<close>.\<close>

fun py_first :: "json \<Rightarrow> py_error + json" where
  "py_first (JArr []) = Inl IndexError"
| "py_first (JArr (x # xs)) = Inr x"
| "py_first (JStr []) = Inl IndexError"
| "py_first (JStr (c # cs)) = Inr (JStr [c])"
| "py_first (JObj kvs) = Inl KeyError"
| "py_first v = Inl TypeError"

text \<open>\<^verbatim>\<open>resp["choices"][0]["message"]["content"]\<close>.\<close>

definition choice_content :: "json \<Rightarrow> py_error + json" where
  "choice_content resp =
     raise_bind (raise_bind (raise_bind (py_getitem resp ''choices'') py_first)
       (\<lambda>c. py_getitem c ''message'')) (\<lambda>m. py_getitem m ''content'')"

text \<open>
  The argument \<^verbatim>\<open>raw_text or ""\<close> of the extraction, whose first step is \<^verbatim>\<open>text.strip()\<close>:
  only a string has that method.
\<close>

definition text_or_empty :: "json \<Rightarrow> py_error + string" where
  "text_or_empty raw = (if truthy raw then (case raw of JStr s \<Rightarrow> Inr s | _ \<Rightarrow> Inl AttributeError) else Inr [])"

text \<open>\<^verbatim>\<open>usage.get(key)\<close> for the three token counts.\<close>

definition usage_tokens :: "json \<Rightarrow> py_error + json \<times> json \<times> json" where
  "usage_tokens usage =
     raise_bind (py_get usage ''prompt_tokens'' JNull) (\<lambda>pt.
     raise_bind (py_get usage ''completion_tokens'' JNull) (\<lambda>ct.
     raise_bind (py_get usage ''total_tokens'' JNull) (\<lambda>tt. Inr (pt, ct, tt))))"

text \<open>
  \<^verbatim>\<open>run_one_judgement\<close>, given the reply \<open>resp\<close> of \<^verbatim>\<open>call_chat_completion\<close> (an error
  dict, or whatever JSON value the body of the HTTP reply parsed to). Nothing in it is
  caught but the lookup of the content: it raises where the reply is a number, where a
  truthy content is not a string and where \<^verbatim>\<open>usage\<close> is not a dict.
\<close>

definition run_one_judgement ::
  "pylib \<Rightarrow> string \<Rightarrow> string \<Rightarrow> real \<Rightarrow> int \<Rightarrow> json \<Rightarrow> py_error + ItemResult" where
  "run_one_judgement L iid m t rep resp =
     raise_bind (contains_error resp) (\<lambda>is_error.
       if is_error then
         raise_bind (py_getitem resp ''error'') (\<lambda>err.
           Inr (item_result (api_error_judgement (py_str (py_repr L) err))
                  iid rep m t JNull JNull JNull JNull))
       else
         (let raw_text = (case choice_content resp of
                            Inl e \<Rightarrow> JStr (take 2000 (json_dumps L resp))
                          | Inr choice \<Rightarrow> choice)
          in raise_bind (text_or_empty raw_text) (\<lambda>txt.
               let j = judgement_of_text (json_loads L) (py_repr L) (float_of_str L) txt;
                   usage = (case resp of
                              JObj kvs \<Rightarrow> (case map_of kvs ''usage'' of None \<Rightarrow> JObj [] | Some u \<Rightarrow> u)
                            | _ \<Rightarrow> JObj [])
               in raise_bind (usage_tokens usage) (\<lambda>(pt, ct, tt).
                    Inr (item_result j iid rep m t pt ct tt raw_text)))))"

subsection \<open>process_full_data\<close>

text \<open>
  A corpus row as the sweep reads it: \<open>row_id\<close> is the value of \<^verbatim>\<open>id\<close> and \<open>row_code\<close> the
  value of the configured code field (\<open>None\<close> when absent or null), \<open>row_extra\<close> holds the
  other fields. Ids and code are strings, as in the data model.
\<close>

record corpus_row =
  row_id :: "string option"
  row_code :: "string option"
  row_extra :: "(string \<times> json) list"

text \<open>\<^verbatim>\<open>code = r.get(code_field) or ""\<close> and \<^verbatim>\<open>item_id = r.get("id") or sha1_text(code)\<close>.\<close>

definition code_of :: "corpus_row \<Rightarrow> string" where
  "code_of r = (case row_code r of None \<Rightarrow> [] | Some c \<Rightarrow> c)"

definition item_id_of :: "pylib \<Rightarrow> corpus_row \<Rightarrow> string" where
  "item_id_of L r =
     (case row_id r of
        None \<Rightarrow> sha1_hexdigest L (code_of r)
      | Some i \<Rightarrow> if i \<noteq> [] then i else sha1_hexdigest L (code_of r))"

definition row_items :: "string \<Rightarrow> corpus_row \<Rightarrow> (string \<times> json) list" where
  "row_items code_field r =
     (case row_id r of None \<Rightarrow> [] | Some i \<Rightarrow> [(''id'', JStr i)])
     @ (case row_code r of None \<Rightarrow> [] | Some c \<Rightarrow> [(code_field, JStr c)])
     @ row_extra r"

definition build_prompt :: "string \<Rightarrow> string \<Rightarrow> string" where
  "build_prompt template code = py_replace ''{code}'' code template"

text \<open>\<^verbatim>\<open>asdict(r)\<close>, in the order of the fields of the dataclass.\<close>

definition asdict :: "ItemResult \<Rightarrow> (string \<times> json) list" where
  "asdict r =
     [(''item_id'', JStr (item_id r)), (''replica'', JInt (replica r)),
      (''decision'', JStr (decision r)), (''labels'', JArr (map JStr (labels r))),
      (''arkts_score'', JFloat (Fin (arkts_score r))),
      (''quality_score'', JFloat (Fin (quality_score r))),
      (''confidence'', JFloat (Fin (confidence r))), (''rationale'', JStr (rationale r)),
      (''model'', JStr (model r)), (''temperature'', JFloat (Fin (temperature r))),
      (''prompt_tokens'', prompt_tokens r), (''completion_tokens'', completion_tokens r),
      (''total_tokens'', total_tokens r), (''raw_response'', raw_response r)]"

text \<open>\<^verbatim>\<open>{**a, **b}\<close>: the keys of \<open>a\<close> in their order with the values of \<open>b\<close> where it has
  the key, then the new keys of \<open>b\<close>.\<close>

definition dict_merge :: "(string \<times> json) list \<Rightarrow> (string \<times> json) list \<Rightarrow> (string \<times> json) list" where
  "dict_merge a b =
     map (\<lambda>(k, v). (k, case map_of b k of None \<Rightarrow> v | Some v' \<Rightarrow> v')) a
     @ filter (\<lambda>(k, v). map_of a k = None) b"

text \<open>The synthetic result recorded when a worker raised.\<close>

definition exec_error_result :: "pylib \<Rightarrow> string \<Rightarrow> py_error \<Rightarrow> ItemResult" where
  "exec_error_result L m e =
     item_result
       \<lparr>decision = ''KEEP_WITH_TAG'', labels = [''EXEC_ERROR''], arkts_score = 3,
        quality_score = 3, confidence = 2 / 10, rationale = take 200 (exc_text L e)\<rparr>
       ''UNKNOWN'' 0 m 0 JNull JNull JNull JNull"

definition temps_or_default :: "real list \<Rightarrow> real list" where
  "temps_or_default temps = (if temps = [] then [1 / 10, 3 / 10] else temps)"

text \<open>The jobs of a batch: for every row, replicas \<open>1\<close> to \<open>replicas\<close>, each with the
  temperature of its position (the last temperature beyond the end of the list).\<close>

definition jobs_of ::
  "pylib \<Rightarrow> int \<Rightarrow> real list \<Rightarrow> corpus_row list \<Rightarrow> (string \<times> string \<times> int \<times> real) list" where
  "jobs_of L replicas temps batch =
     concat (map (\<lambda>r. map (\<lambda>rep. (item_id_of L r, code_of r, int rep + 1,
                                   temps ! min rep (length temps - 1)))
                         [0..<nat replicas]) batch)"

text \<open>
  What the workers of batch \<open>k\<close> return or raise. \<open>chat k n prompt t\<close> is the reply of
  \<^verbatim>\<open>call_chat_completion\<close> to job \<open>n\<close> of batch \<open>k\<close>. The results are taken in the order
  of submission; the order of completion only permutes them before the sort.
\<close>

definition batch_outcomes ::
  "pylib \<Rightarrow> (nat \<Rightarrow> nat \<Rightarrow> string \<Rightarrow> real \<Rightarrow> json) \<Rightarrow> string \<Rightarrow> string \<Rightarrow> nat
     \<Rightarrow> (string \<times> string \<times> int \<times> real) list \<Rightarrow> (py_error + ItemResult) list" where
  "batch_outcomes L chat template m k jobs =
     map (\<lambda>(n, (iid, code, rep, t)).
            run_one_judgement L iid m t rep (chat k n (build_prompt template code) t))
         (enumerate 0 jobs)"

definition batch_results :: "pylib \<Rightarrow> string \<Rightarrow> (py_error + ItemResult) list \<Rightarrow> ItemResult list" where
  "batch_results L m outcomes =
     sort_key (\<lambda>x. (item_id x, replica x))
       (map (\<lambda>out. case out of Inl e \<Rightarrow> exec_error_result L m e | Inr res \<Rightarrow> res) outcomes)"

text \<open>The rows a batch appends: every result merged over the row of its item, if any.\<close>

definition replica_rows ::
  "pylib \<Rightarrow> (nat \<Rightarrow> nat \<Rightarrow> string \<Rightarrow> real \<Rightarrow> json) \<Rightarrow> string \<Rightarrow> string \<Rightarrow> string \<Rightarrow> int
     \<Rightarrow> real list \<Rightarrow> nat \<Rightarrow> corpus_row list \<Rightarrow> json list" where
  "replica_rows L chat template code_field m replicas temps k batch =
     (let item_map = map_of (rev (map (\<lambda>r. (item_id_of L r, r)) batch));
          results = batch_results L m
                      (batch_outcomes L chat template m k (jobs_of L replicas temps batch))
      in map (\<lambda>res. JObj (dict_merge
                    (case item_map (item_id res) of None \<Rightarrow> [] | Some r \<Rightarrow> row_items code_field r)
                    (asdict res)))
             results)"

text \<open>The slices \<^verbatim>\<open>remaining_rows[i:i + batch_size]\<close> for a positive batch size.\<close>

function batches_of :: "nat \<Rightarrow> 'a list \<Rightarrow> 'a list list" where
  "batches_of b xs = (if xs = [] \<or> b = 0 then [] else take b xs # batches_of b (drop b xs))"
  by pat_completeness auto
termination
  by (relation "measure (\<lambda>(b, xs). length xs)") auto

declare batches_of.simps [simp del]

definition store_file :: "string list option \<Rightarrow> jfile" where
  "store_file store = (case store of None \<Rightarrow> Missing | Some ls \<Rightarrow> Lines ls)"

definition remaining_rows :: "pylib \<Rightarrow> corpus_row list \<Rightarrow> string list option \<Rightarrow> corpus_row list" where
  "remaining_rows L rows store =
     filter (\<lambda>r. JStr (item_id_of L r)
                   \<notin> load_processed_ids_from_judgements (json_loads L) (store_file store)) rows"

text \<open>All rows one run appends, batch after batch.\<close>

definition run_rows ::
  "pylib \<Rightarrow> (nat \<Rightarrow> nat \<Rightarrow> string \<Rightarrow> real \<Rightarrow> json) \<Rightarrow> string \<Rightarrow> string \<Rightarrow> string \<Rightarrow> int
     \<Rightarrow> real list \<Rightarrow> nat \<Rightarrow> corpus_row list \<Rightarrow> json list" where
  "run_rows L chat template code_field m replicas temps b remaining =
     concat (map (\<lambda>(k, batch). replica_rows L chat template code_field m replicas temps k batch)
                 (enumerate 0 (batches_of b remaining)))"

text \<open>
  \<^verbatim>\<open>process_full_data\<close> as a function of the corpus rows and of the judgements file
  (\<open>None\<close> when it does not exist) to the judgements file after the run. The summary file
  and the console output are not part of the model. A batch size of zero makes
  \<^verbatim>\<open>range\<close> raise, a negative one leaves the loop empty; a worker pool of no workers
  raises in the first batch.
\<close>

definition process_full_data ::
  "pylib \<Rightarrow> (nat \<Rightarrow> nat \<Rightarrow> string \<Rightarrow> real \<Rightarrow> json) \<Rightarrow> string \<Rightarrow> string \<Rightarrow> string \<Rightarrow> int
     \<Rightarrow> real list \<Rightarrow> int \<Rightarrow> int \<Rightarrow> corpus_row list \<Rightarrow> string list option
     \<Rightarrow> py_error + string list option" where
  "process_full_data L chat template code_field m replicas temps concurrency batch_size rows store =
     (if rows = [] then Inl SystemExit
      else
        (let remaining = remaining_rows L rows store
         in if remaining = [] then Inr store
            else if batch_size = 0 then Inl ValueError
            else if batch_size < 0 then Inr store
            else if concurrency \<le> 0 then Inl ValueError
            else Inr (Some ((case store of None \<Rightarrow> [] | Some ls \<Rightarrow> ls)
                   @ map (json_dumps L)
                       (run_rows L chat template code_field m replicas (temps_or_default temps)
                          (nat batch_size) remaining)))))"

text \<open>The jobs one run dispatches.\<close>

definition dispatched_jobs ::
  "pylib \<Rightarrow> int \<Rightarrow> real list \<Rightarrow> int \<Rightarrow> int \<Rightarrow> corpus_row list \<Rightarrow> string list option
     \<Rightarrow> (string \<times> string \<times> int \<times> real) list" where
  "dispatched_jobs L replicas temps concurrency batch_size rows store =
     (if batch_size \<le> 0 \<or> concurrency \<le> 0 then []
      else concat (map (jobs_of L replicas (temps_or_default temps))
                       (batches_of (nat batch_size) (remaining_rows L rows store))))"

text \<open>The outcomes of all workers of one run.\<close>

definition run_outcomes ::
  "pylib \<Rightarrow> (nat \<Rightarrow> nat \<Rightarrow> string \<Rightarrow> real \<Rightarrow> json) \<Rightarrow> string \<Rightarrow> string \<Rightarrow> int
     \<Rightarrow> real list \<Rightarrow> nat \<Rightarrow> corpus_row list \<Rightarrow> (py_error + ItemResult) list" where
  "run_outcomes L chat template m replicas temps b remaining =
     concat (map (\<lambda>(k, batch). batch_outcomes L chat template m k (jobs_of L replicas temps batch))
                 (enumerate 0 (batches_of b remaining)))"

subsection \<open>read_jsonl\<close>

text \<open>
  \<^verbatim>\<open>read_jsonl\<close> on the lines of a file: blank lines and lines that do not parse are
  skipped; with a limit, reading stops after the row that reaches it.
\<close>

definition read_jsonl :: "(string \<Rightarrow> json option) \<Rightarrow> int option \<Rightarrow> string list \<Rightarrow> json list" where
  "read_jsonl loads limit ls =
     (let rows = List.map_filter
                   (\<lambda>line. let l = py_strip line in if l = [] then None else loads l) ls
      in case limit of None \<Rightarrow> rows | Some n \<Rightarrow> take (nat (max 1 n)) rows)"

section \<open>Properties stated by the specification\<close>

text \<open>
  The predicates below are the words of the specification; they are compared with the
  functions above, which follow the source.
\<close>

text \<open>A Judgement of the data model: one of the three decisions, scores in \<open>[0, 5]\<close>,
  confidence in \<open>[0, 1]\<close>, a rationale of at most 400 characters.\<close>

definition well_formed :: "Judgement \<Rightarrow> bool" where
  "well_formed j = (decision j \<in> set DECISIONS \<and> 0 \<le> arkts_score j \<and> arkts_score j \<le> 5
     \<and> 0 \<le> quality_score j \<and> quality_score j \<le> 5 \<and> 0 \<le> confidence j \<and> confidence j \<le> 1
     \<and> length (rationale j) \<le> 400)"

text \<open>The \<^verbatim>\<open>decision\<close> field canonicalizes to one of the three decisions.\<close>

definition decision_canonical :: "(json \<Rightarrow> string) \<Rightarrow> json \<Rightarrow> bool" where
  "decision_canonical repr obj =
     (case py_getitem obj ''decision'' of
        Inl e \<Rightarrow> False
      | Inr dv \<Rightarrow> py_upper (py_strip (py_str repr dv)) \<in> set DECISIONS)"

text \<open>The \<^verbatim>\<open>labels\<close> field is a list, is null or is absent.\<close>

definition labels_list_or_absent :: "json \<Rightarrow> bool" where
  "labels_list_or_absent obj =
     (case py_get obj ''labels'' (JArr []) of
        Inr JNull \<Rightarrow> True
      | Inr (JArr ls) \<Rightarrow> True
      | _ \<Rightarrow> False)"

text \<open>The number of judgements of a list that carry a given decision.\<close>

definition tally :: "Judgement list \<Rightarrow> string \<Rightarrow> nat" where
  "tally js d = count (mset (map decision js)) d"

text \<open>The canonical form of the \<^verbatim>\<open>decision\<close> field, when the object has one.\<close>

definition canonical_decision :: "(json \<Rightarrow> string) \<Rightarrow> json \<Rightarrow> string option" where
  "canonical_decision repr obj =
     (case py_getitem obj ''decision'' of
        Inl e \<Rightarrow> None
      | Inr dv \<Rightarrow> Some (py_upper (py_strip (py_str repr dv))))"

text \<open>Both decisions are ranked by the table, the second at least as high as the first.\<close>

definition less_severe_eq :: "(string \<times> int) list \<Rightarrow> string \<Rightarrow> string \<Rightarrow> bool" where
  "less_severe_eq tab d d' =
     (case (map_of tab d, map_of tab d') of (Some r, Some r') \<Rightarrow> r \<le> r' | _ \<Rightarrow> False)"

text \<open>No JSON object can be extracted from the text and validated.\<close>

definition no_valid_object ::
  "(string \<Rightarrow> json option) \<Rightarrow> (json \<Rightarrow> string) \<Rightarrow> (string \<Rightarrow> pyfloat option) \<Rightarrow> string \<Rightarrow> bool" where
  "no_valid_object loads repr fstr raw_text =
     (case extract_json_object loads raw_text of
        None \<Rightarrow> True
      | Some obj \<Rightarrow> \<not> truthy obj \<or> validate_judgement repr fstr obj = None)"

text \<open>The truthy, hashable \<^verbatim>\<open>item_id\<close> values of a line that is not blank and parses.\<close>

definition ids_of_line :: "(string \<Rightarrow> json option) \<Rightarrow> string \<Rightarrow> json set" where
  "ids_of_line loads line =
     {v. py_strip line \<noteq> [] \<and>
         (\<exists>data. loads (py_strip line) = Some data \<and> py_get data ''item_id'' JNull = Inr v)
         \<and> truthy v \<and> hashable v}"

definition truthy_hashable_ids :: "(string \<Rightarrow> json option) \<Rightarrow> string list \<Rightarrow> json set" where
  "truthy_hashable_ids loads ls = (\<Union>line \<in> set ls. ids_of_line loads line)"

text \<open>The identity of a stored row: its \<^verbatim>\<open>item_id\<close> and its \<^verbatim>\<open>replica\<close>.\<close>

definition row_identity :: "json \<Rightarrow> (py_error + json) \<times> (py_error + json)" where
  "row_identity row = (py_get row ''item_id'' JNull, py_get row ''replica'' JNull)"

text \<open>No worker of the list raised.\<close>

definition all_returned :: "(py_error + ItemResult) list \<Rightarrow> bool" where
  "all_returned outcomes = list_all (\<lambda>out. case out of Inl e \<Rightarrow> False | Inr res \<Rightarrow> True) outcomes"

text \<open>Every row of the list is written as a non-blank line that parses back to the row.\<close>

definition written_and_read_back :: "pylib \<Rightarrow> json list \<Rightarrow> bool" where
  "written_and_read_back L rows =
     list_all (\<lambda>row. py_strip (json_dumps L row) \<noteq> []
                   \<and> json_loads L (py_strip (json_dumps L row)) = Some row) rows"

text \<open>What the sweep records for the outcome of a worker.\<close>

definition result_of :: "pylib \<Rightarrow> string \<Rightarrow> py_error + ItemResult \<Rightarrow> ItemResult" where
  "result_of L m out = (case out of Inl e \<Rightarrow> exec_error_result L m e | Inr res \<Rightarrow> res)"

text \<open>The identity a job gives to the row of its result.\<close>

definition job_identity :: "string \<times> string \<times> int \<times> real \<Rightarrow> (py_error + json) \<times> (py_error + json)" where
  "job_identity job = (case job of (iid, code, rep, t) \<Rightarrow> (Inr (JStr iid), Inr (JInt rep)))"

section \<open>A small corpus for the concrete runs\<close>

text \<open>
  One corpus row with id \<^verbatim>\<open>a\<close>; a judge reply that is an HTTP error, and one whose text is
  fine but whose \<^verbatim>\<open>usage\<close> is null. The library writes a row as its item id and replica
  number and reads the three lines below back as the rows they were written from.
\<close>

definition demo_item :: corpus_row where
  "demo_item = \<lparr>row_id = Some ''a'', row_code = Some ''let x = 1'', row_extra = []\<rparr>"

definition demo_error_reply :: json where
  "demo_error_reply = JObj [(''error'', JStr ''HTTP 500''), (''raw'', JStr '''')]"

definition demo_null_usage_reply :: json where
  "demo_null_usage_reply =
     JObj [(''choices'', JArr [JObj [(''message'', JObj [(''content'', JStr ''fine'')])]]),
           (''usage'', JNull)]"

definition demo_row :: "int \<Rightarrow> real \<Rightarrow> json" where
  "demo_row rep t =
     JObj (dict_merge (row_items ''text'' demo_item)
             (asdict (item_result (api_error_judgement ''HTTP 500'') ''a'' rep ''m'' t
                        JNull JNull JNull JNull)))"

definition demo_exec_row :: json where
  "demo_exec_row =
     JObj (asdict (item_result
        \<lparr>decision = ''KEEP_WITH_TAG'', labels = [''EXEC_ERROR''], arkts_score = 3,
         quality_score = 3, confidence = 2 / 10, rationale = ''AttributeError''\<rparr>
        ''UNKNOWN'' 0 ''m'' 0 JNull JNull JNull JNull))"

definition demo_lib :: pylib where
  "demo_lib =
     \<lparr>json_loads = (\<lambda>s. if s = ''a#1'' then Some (demo_row 1 (1 / 10))
                         else if s = ''a#2'' then Some (demo_row 2 (3 / 10))
                         else if s = ''UNKNOWN#0'' then Some demo_exec_row
                         else None),
      json_dumps = (\<lambda>v. case row_identity v of
                           (Inr (JStr i), Inr (JInt n)) \<Rightarrow>
                              i @ (if n = 0 then ''#0'' else if n = 1 then ''#1'' else ''#2'')
                         | _ \<Rightarrow> ''?''),
      py_repr = (\<lambda>v. ''?''),
      float_of_str = (\<lambda>s. None),
      sha1_hexdigest = (\<lambda>s. ''da39a3ee5e6b4b0d3255bfef95601890afd80709''),
      exc_text = (\<lambda>e. ''AttributeError'')\<rparr>"

section \<open>Validation and consensus\<close>

lemma clamp_is_max_min: "py_max2 (Fin lo) (py_min2 (Fin hi) x) = Fin (clamp lo hi x)"
  by (cases x) (auto simp: clamp_def py_min2_def py_max2_def)

lemma clamp_bounds: "lo \<le> hi \<Longrightarrow> lo \<le> clamp lo hi x \<and> clamp lo hi x \<le> hi"
  by (cases x) (auto simp: clamp_def py_min2_def py_max2_def)

lemma clamp_Fin: "clamp lo hi (Fin r) = max lo (min hi r)"
  by (auto simp: clamp_def py_min2_def py_max2_def)

lemma validate_body_Some:
  assumes "validate_body repr fstr obj = Inr (Some j)"
  shows "decision_canonical repr obj \<and> labels_list_or_absent obj \<and> well_formed j"
  using assms
  unfolding validate_body_def decision_canonical_def labels_list_or_absent_def well_formed_def Let_def
  by (auto split: sum.splits if_splits json.splits simp: clamp_bounds)

lemma validate_Some:
  assumes "validate_judgement repr fstr obj = Some j"
  shows "decision_canonical repr obj \<and> labels_list_or_absent obj \<and> well_formed j"
proof -
  from assms have "validate_body repr fstr obj = Inr (Some j)"
    by (auto simp: validate_judgement_def split: sum.splits)
  then show ?thesis by (rule validate_body_Some)
qed

lemma vote_incr_map_of:
  "map_of (vote_incr d vs) = (map_of vs)(d \<mapsto> (case map_of vs d of None \<Rightarrow> 1 | Some c \<Rightarrow> c + 1))"
  by (induction d vs rule: vote_incr.induct) (auto simp: fun_eq_iff)

lemma vote_incr_keys: "fst ` set (vote_incr d vs) = insert d (fst ` set vs)"
  by (induction d vs rule: vote_incr.induct) auto

lemma vote_incr_distinct: "distinct (map fst vs) \<Longrightarrow> distinct (map fst (vote_incr d vs))"
proof (induction d vs rule: vote_incr.induct)
  case (1 d)
  then show ?case by simp
next
  case (2 d k c vs)
  then show ?case using vote_incr_keys [of d vs] by (cases "k = d") (auto simp: image_iff)
qed

lemma foldl_votes_distinct:
  "distinct (map fst vs) \<Longrightarrow> distinct (map fst (foldl (\<lambda>vote j. vote_incr (decision j) vote) vs js))"
  by (induction js arbitrary: vs) (auto simp: vote_incr_distinct)

lemma foldl_votes_map_of:
  "map_of (foldl (\<lambda>vote j. vote_incr (decision j) vote) vs js) d =
     (if d \<in> decision ` set js \<or> d \<in> dom (map_of vs)
      then Some ((case map_of vs d of None \<Rightarrow> 0 | Some c \<Rightarrow> c) + tally js d) else None)"
proof (induction js arbitrary: vs)
  case Nil
  then show ?case by (auto simp: tally_def)
next
  case (Cons j js)
  show ?case
    by (simp add: Cons.IH vote_incr_map_of tally_def dom_def split: option.splits) 
qed

lemma count_votes_distinct: "distinct (map fst (count_votes js))"
  unfolding count_votes_def by (rule foldl_votes_distinct) simp

lemma count_votes_map_of:
  "map_of (count_votes js) d = (if d \<in> decision ` set js then Some (tally js d) else None)"
  unfolding count_votes_def by (simp add: foldl_votes_map_of)

lemma count_votes_set:
  "set (count_votes js) = (\<lambda>d. (d, tally js d)) ` decision ` set js"
proof -
  have "(d, c) \<in> set (count_votes js) \<longleftrightarrow> d \<in> decision ` set js \<and> c = tally js d" for d c
    using map_of_eq_Some_iff [OF count_votes_distinct, of js d c]
    by (auto simp: count_votes_map_of split: if_splits)
  then show ?thesis by auto
qed

lemma tally_perm: "mset js = mset js' \<Longrightarrow> tally js = tally js'"
  unfolding tally_def fun_eq_iff by (metis mset_map)

lemma count_votes_perm: "mset js = mset js' \<Longrightarrow> set (count_votes js) = set (count_votes js')"
  by (simp add: count_votes_set tally_perm [of js js'] mset_eq_setD [of js js'])

lemma top_decisions_distinct: "distinct (top_decisions js)"
  unfolding top_decisions_def Let_def
  by (rule distinct_map_filter) (rule count_votes_distinct)

lemma top_decisions_set:
  "set (top_decisions js) = {d \<in> decision ` set js. tally js d = Max (tally js ` decision ` set js)}"
proof -
  let ?m = "Max (tally js ` decision ` set js)"
  have in_votes: "(d, c) \<in> set (count_votes js) \<longleftrightarrow> d \<in> decision ` set js \<and> c = tally js d" for d c
    by (auto simp: count_votes_set)
  have "snd ` set (count_votes js) = tally js ` decision ` set js"
    by (simp add: count_votes_set image_image)
  then have "d \<in> set (top_decisions js) \<longleftrightarrow> (\<exists>c. (d, c) \<in> set (count_votes js) \<and> c = ?m)" for d
    unfolding top_decisions_def Let_def by (auto simp: image_iff)
  then show ?thesis by (auto simp: in_votes)
qed

lemma top_decisions_perm:
  "mset js = mset js' \<Longrightarrow> set (top_decisions js) = set (top_decisions js')"
  by (simp add: top_decisions_set tally_perm [of js js'] mset_eq_setD [of js js'])

lemma top_decisions_nonempty: "js \<noteq> [] \<Longrightarrow> top_decisions js \<noteq> []"
proof -
  assume "js \<noteq> []"
  then have ne: "tally js ` decision ` set js \<noteq> {}" by simp
  have "finite (tally js ` decision ` set js)" by simp
  from Max_in [OF this ne] obtain d where "d \<in> decision ` set js"
    "tally js d = Max (tally js ` decision ` set js)" by (metis (no_types, lifting) imageE)
  then have "d \<in> set (top_decisions js)" by (simp add: top_decisions_set)
  then show ?thesis by auto
qed

lemma top_decisions_subset: "set (top_decisions js) \<subseteq> decision ` set js"
  by (auto simp: top_decisions_set)

lemma with_severity_Inr:
  "\<forall>d \<in> set ds. map_of tab d \<noteq> None \<Longrightarrow>
   with_severity tab ds = Inr (map (\<lambda>d. (d, the (map_of tab d))) ds)"
  by (induction ds) auto

lemma with_severity_Inl:
  "\<exists>d \<in> set ds. map_of tab d = None \<Longrightarrow> with_severity tab ds = Inl KeyError"
proof (induction ds)
  case Nil
  then show ?case by simp
next
  case (Cons a ds)
  show ?case
  proof (cases "map_of tab a")
    case None
    then show ?thesis by simp
  next
    case (Some r)
    with Cons.prems have "\<exists>d \<in> set ds. map_of tab d = None" by auto
    then have "with_severity tab ds = Inl KeyError" by (rule Cons.IH)
    with Some show ?thesis by simp
  qed
qed

lemma final_decision_with_long:
  "final_decision_with tab (a # b # rest) =
     (case with_severity tab (a # b # rest) of
        Inl e \<Rightarrow> Inl e
      | Inr ranked \<Rightarrow>
         if snd (hd ranked) = snd (last ranked) then Inr ''KEEP_WITH_TAG''
         else Inr (fst (hd (py_sorted_rev snd ranked))))"
  by (cases "with_severity tab (a # b # rest)")
     (simp_all add: final_decision_with_def Let_def del: with_severity.simps)

lemma sorted_last_max:
  "sorted (map f ys) \<Longrightarrow> y \<in> set ys \<Longrightarrow> f y \<le> f (last ys)"
  by (induction ys) (auto split: if_splits)

lemma py_sorted_rev_hd:
  assumes "xs \<noteq> []"
  shows "hd (py_sorted_rev f xs) \<in> set xs \<and> (\<forall>y \<in> set xs. f y \<le> f (hd (py_sorted_rev f xs)))"
proof -
  let ?ys = "sort_key f (rev xs)"
  have ne: "?ys \<noteq> []" using assms by (metis length_0_conv length_rev length_sort)
  have hd: "hd (py_sorted_rev f xs) = last ?ys"
    unfolding py_sorted_rev_def using ne by (simp add: hd_rev)
  have set: "set ?ys = set xs" by simp
  have "last ?ys \<in> set ?ys" using ne by (rule last_in_set)
  moreover have "\<forall>y \<in> set ?ys. f y \<le> f (last ?ys)"
    using sorted_last_max [of f ?ys] by simp
  ultimately show ?thesis unfolding hd set by simp
qed

lemma SEVERITY_inj:
  "map_of SEVERITY d = Some r \<Longrightarrow> map_of SEVERITY d' = Some r \<Longrightarrow> d = d'"
  by (auto simp: SEVERITY_def split: if_splits)

lemma SEVERITY_dom: "map_of SEVERITY d \<noteq> None \<longleftrightarrow> d \<in> set DECISIONS"
  by (auto simp: SEVERITY_def DECISIONS_def)

text \<open>More than one tied decision, every one of them in the table.\<close>

lemma final_decision_tie:
  assumes len: "length tops > 1" and known: "\<forall>d \<in> set tops. map_of tab d \<noteq> None"
  shows "\<exists>d. final_decision_with tab tops =
            Inr (if the (map_of tab (hd tops)) = the (map_of tab (last tops)) then ''KEEP_WITH_TAG'' else d)
          \<and> d \<in> set tops \<and> (\<forall>d' \<in> set tops. the (map_of tab d') \<le> the (map_of tab d))"
proof -
  let ?sev = "\<lambda>d. the (map_of tab d)"
  let ?ranked = "map (\<lambda>d. (d, ?sev d)) tops"
  from len have ne: "tops \<noteq> []" by auto
  from len obtain a b rest where tops: "tops = a # b # rest"
    by (cases tops; cases "tl tops") auto
  have ws: "with_severity tab tops = Inr ?ranked" using known by (rule with_severity_Inr)
  have ne': "?ranked \<noteq> []" using ne by simp
  let ?w = "hd (py_sorted_rev snd ?ranked)"
  from py_sorted_rev_hd [OF ne', of snd]
  have w: "?w \<in> set ?ranked" "\<forall>y \<in> set ?ranked. snd y \<le> snd ?w" by auto
  from w(1) have w1: "fst ?w \<in> set tops" "snd ?w = ?sev (fst ?w)" by auto
  from w(2) have w2: "\<forall>d' \<in> set tops. ?sev d' \<le> ?sev (fst ?w)" using w1(2) by auto
  have h: "snd (hd ?ranked) = ?sev (hd tops)" using ne by (simp add: hd_map)
  have l: "snd (last ?ranked) = ?sev (last tops)" using ne by (simp add: last_map)
  have "final_decision_with tab tops =
     (case with_severity tab tops of
        Inl e \<Rightarrow> Inl e
      | Inr ranked \<Rightarrow>
         if snd (hd ranked) = snd (last ranked) then Inr ''KEEP_WITH_TAG''
         else Inr (fst (hd (py_sorted_rev snd ranked))))"
    unfolding tops by (rule final_decision_with_long)
  also have "\<dots> = (if snd (hd ?ranked) = snd (last ?ranked) then Inr ''KEEP_WITH_TAG''
         else Inr (fst ?w))"
    by (simp only: ws sum.case)
  also have "\<dots> = Inr (if ?sev (hd tops) = ?sev (last tops) then ''KEEP_WITH_TAG'' else fst ?w)"
    by (simp only: h l if_distrib [of Inr])
  finally show ?thesis using w1(1) w2 by blast
qed

lemma final_decision_unknown:
  assumes len: "length tops > 1" and unknown: "\<exists>d \<in> set tops. map_of tab d = None"
  shows "final_decision_with tab tops = Inl KeyError"
proof -
  from len obtain a b rest where tops: "tops = a # b # rest"
    by (cases tops; cases "tl tops") auto
  have "with_severity tab tops = Inl KeyError" using unknown by (rule with_severity_Inl)
  then show ?thesis unfolding tops by (simp only: final_decision_with_long sum.case)
qed

lemma hd_neq_last: "distinct xs \<Longrightarrow> length xs > 1 \<Longrightarrow> hd xs \<noteq> last xs"
  by (cases xs) auto

text \<open>With the table of the source and distinct tied decisions the guard never fires.\<close>

lemma final_decision_SEVERITY_tie:
  assumes len: "length tops > 1" and dist: "distinct tops"
    and known: "set tops \<subseteq> set DECISIONS"
  shows "\<exists>d. final_decision_with SEVERITY tops = Inr d \<and> d \<in> set tops
      \<and> (\<forall>d' \<in> set tops. the (map_of SEVERITY d') \<le> the (map_of SEVERITY d))"
proof -
  from known have k: "\<forall>d \<in> set tops. map_of SEVERITY d \<noteq> None"
    using SEVERITY_dom by blast
  from len have ne: "tops \<noteq> []" by auto
  have "hd tops \<noteq> last tops" using dist len by (rule hd_neq_last)
  moreover have "map_of SEVERITY (hd tops) \<noteq> None" "map_of SEVERITY (last tops) \<noteq> None"
    using k ne by auto
  ultimately have "the (map_of SEVERITY (hd tops)) \<noteq> the (map_of SEVERITY (last tops))"
    using SEVERITY_inj by (metis option.collapse)
  with final_decision_tie [OF len k] show ?thesis by auto
qed

lemma final_decision_set:
  assumes dx: "distinct xs" and dy: "distinct ys" and eq: "set xs = set ys"
  shows "final_decision_with SEVERITY xs = final_decision_with SEVERITY ys"
proof -
  have len: "length xs = length ys" using dx dy eq by (metis distinct_card)
  consider "length xs = 0" | "length xs = 1" | "length xs > 1" by linarith
  then show ?thesis
  proof cases
    case 1
    with len show ?thesis by simp
  next
    case 2
    then obtain a where "xs = [a]" by (cases xs) auto
    moreover from 2 len obtain b where "ys = [b]" by (cases ys) auto
    ultimately show ?thesis using eq by simp
  next
    case 3
    with len have leny: "length ys > 1" by simp
    show ?thesis
    proof (cases "set xs \<subseteq> set DECISIONS")
      case True
      from final_decision_SEVERITY_tie [OF 3 dx True] obtain d where
        d: "final_decision_with SEVERITY xs = Inr d" "d \<in> set xs"
           "\<forall>d' \<in> set xs. the (map_of SEVERITY d') \<le> the (map_of SEVERITY d)" by blast
      from True eq have True': "set ys \<subseteq> set DECISIONS" by simp
      from final_decision_SEVERITY_tie [OF leny dy True'] obtain e where
        e: "final_decision_with SEVERITY ys = Inr e" "e \<in> set ys"
           "\<forall>d' \<in> set ys. the (map_of SEVERITY d') \<le> the (map_of SEVERITY e)" by blast
      from d e eq have "the (map_of SEVERITY d) = the (map_of SEVERITY e)"
        by (metis order_antisym)
      moreover have "map_of SEVERITY d \<noteq> None" "map_of SEVERITY e \<noteq> None"
        using d(2) e(2) True True' SEVERITY_dom by blast+
      ultimately have "d = e" using SEVERITY_inj by (metis option.collapse)
      with d e show ?thesis by simp
    next
      case False
      then have "\<exists>d \<in> set xs. map_of SEVERITY d = None" using SEVERITY_dom by blast
      moreover from this eq have "\<exists>d \<in> set ys. map_of SEVERITY d = None" by simp
      ultimately show ?thesis
        using final_decision_unknown [OF 3] final_decision_unknown [OF leny] by simp
    qed
  qed
qed

lemma sum_list_bounds:
  "\<forall>x \<in> set xs. lo \<le> x \<and> x \<le> hi \<Longrightarrow>
   lo * real (length xs) \<le> sum_list xs \<and> sum_list xs \<le> hi * real (length xs)"
  by (induction xs) (auto simp: algebra_simps)

lemma mean_bounds:
  fixes xs :: "real list"
  assumes "xs \<noteq> []" and "\<forall>x \<in> set xs. lo \<le> x \<and> x \<le> hi"
  shows "lo \<le> sum_list xs / real (length xs) \<and> sum_list xs / real (length xs) \<le> hi"
proof -
  have pos: "0 < real (length xs)" using assms(1) by simp
  from sum_list_bounds [OF assms(2)] pos show ?thesis
    by (simp add: pos_le_divide_eq pos_divide_le_eq)
qed

lemma final_decision_member:
  assumes ne: "tops \<noteq> []" and dist: "distinct tops" and known: "set tops \<subseteq> set DECISIONS"
  shows "\<exists>d. final_decision_with SEVERITY tops = Inr d \<and> d \<in> set tops"
proof (cases "length tops > 1")
  case True
  from final_decision_SEVERITY_tie [OF True dist known] show ?thesis by blast
next
  case False
  with ne obtain a where "tops = [a]" by (cases tops) auto
  then show ?thesis by (simp add: final_decision_with_def)
qed

lemma consensus_nonempty:
  "js \<noteq> [] \<Longrightarrow> consensus js =
     (case final_decision_with SEVERITY (top_decisions js) of
           Inl e \<Rightarrow> Inl e
         | Inr final_decision \<Rightarrow>
            Inr \<lparr>decision = final_decision,
                 labels = sort (remdups (concat (map labels js))),
                 arkts_score = sum_list (map arkts_score js) / real (length js),
                 quality_score = sum_list (map quality_score js) / real (length js),
                 confidence = sum_list (map confidence js) / real (length js),
                 rationale = take 400 (py_join ''; '' (map rationale js))\<rparr>)"
  by (simp add: consensus_def consensus_with_def)

lemma consensus_well_formed:
  assumes wf: "\<forall>j \<in> set js. well_formed j"
  shows "\<exists>c. consensus js = Inr c \<and> well_formed c"
proof (cases "js = []")
  case True
  then show ?thesis
    by (simp add: consensus_def consensus_with_def well_formed_def DECISIONS_def)
next
  case False
  have "set (top_decisions js) \<subseteq> set DECISIONS"
    using top_decisions_subset [of js] wf by (auto simp: well_formed_def)
  from final_decision_member [OF top_decisions_nonempty [OF False] top_decisions_distinct this]
  obtain d where d: "final_decision_with SEVERITY (top_decisions js) = Inr d"
    "d \<in> set (top_decisions js)" by blast
  with \<open>set (top_decisions js) \<subseteq> set DECISIONS\<close> have dd: "d \<in> set DECISIONS" by auto
  have ne: "map f js \<noteq> []" for f :: "Judgement \<Rightarrow> real" using False by simp
  have a: "0 \<le> sum_list (map arkts_score js) / real (length js)
         \<and> sum_list (map arkts_score js) / real (length js) \<le> 5"
    using mean_bounds [of "map arkts_score js" 0 5] ne wf by (simp add: well_formed_def)
  have q: "0 \<le> sum_list (map quality_score js) / real (length js)
         \<and> sum_list (map quality_score js) / real (length js) \<le> 5"
    using mean_bounds [of "map quality_score js" 0 5] ne wf by (simp add: well_formed_def)
  have c: "0 \<le> sum_list (map confidence js) / real (length js)
         \<and> sum_list (map confidence js) / real (length js) \<le> 1"
    using mean_bounds [of "map confidence js" 0 1] ne wf by (simp add: well_formed_def)
  show ?thesis
    using a q c dd by (simp add: consensus_nonempty [OF False] d(1) well_formed_def)
qed

text \<open>
  Claim C9. Every Judgement the pipeline produces is well formed: the result of a successful
  validation, the \<^verbatim>\<open>API_ERROR\<close> and \<^verbatim>\<open>PARSE_ERROR\<close> placeholders, and the consensus of
  well-formed judgements (which then never raises) all have one of the three decisions,
  scores in \<open>[0, 5]\<close>, a confidence in \<open>[0, 1]\<close> and a rationale of at most 400
  characters.
\<close>

theorem judgements_well_formed:
  "(validate_judgement repr fstr obj = Some j \<longrightarrow> well_formed j)
   \<and> well_formed (api_error_judgement err)
   \<and> well_formed parse_error_judgement
   \<and> ((\<forall>j \<in> set js. well_formed j) \<longrightarrow> (\<exists>c. consensus js = Inr c \<and> well_formed c))"
  using validate_Some [of repr fstr obj j] consensus_well_formed [of js]
  by (auto simp: well_formed_def api_error_judgement_def parse_error_judgement_def DECISIONS_def)

lemma validate_example:
  "validate_judgement (\<lambda>v. ''?'') (\<lambda>s. None)
     (JObj [(''decision'', JStr '' keep ''), (''arkts_score'', JFloat NaN), (''confidence'', JInt 7)])
   = Some \<lparr>decision = ''KEEP'', labels = [], arkts_score = 5, quality_score = 0,
           confidence = 1, rationale = []\<rparr>"
  by (simp add: validate_judgement_def validate_body_def py_upper_def py_strip_def is_space_def
      upper_char_def DECISIONS_def clamp_def py_min2_def py_max2_def)

theorem judgements_well_formed_witness:
  "well_formed \<lparr>decision = ''KEEP'', labels = [], arkts_score = 5, quality_score = 0,
           confidence = 1, rationale = []\<rparr>
   \<and> (\<exists>c. consensus [parse_error_judgement, api_error_judgement ''HTTP 500''] = Inr c \<and> well_formed c)"
  using judgements_well_formed [of "\<lambda>v. ''?''" "\<lambda>s. None"
     "JObj [(''decision'', JStr '' keep ''), (''arkts_score'', JFloat NaN), (''confidence'', JInt 7)]"
     "\<lparr>decision = ''KEEP'', labels = [], arkts_score = 5, quality_score = 0,
           confidence = 1, rationale = []\<rparr>" "''HTTP 500''"
     "[parse_error_judgement, api_error_judgement ''HTTP 500'']"]
     validate_example
  by simp

lemma validate_body_decision:
  assumes "validate_body repr fstr obj = Inr (Some j)"
  shows "canonical_decision repr obj = Some (decision j)"
  using assms
  unfolding validate_body_def canonical_decision_def Let_def
  by (auto split: sum.splits if_splits json.splits)

lemma validate_decision:
  assumes "validate_judgement repr fstr obj = Some j"
  shows "canonical_decision repr obj = Some (decision j)"
proof -
  from assms have "validate_body repr fstr obj = Inr (Some j)"
    by (auto simp: validate_judgement_def split: sum.splits)
  then show ?thesis by (rule validate_body_decision)
qed

text \<open>
  Claim C7. \<^verbatim>\<open>validate_judgement\<close> succeeds only when the \<^verbatim>\<open>decision\<close> field
  canonicalizes (stripped, upper-cased) to one of the three decisions and \<^verbatim>\<open>labels\<close> is a
  list, null or absent. On success the Judgement carries that canonical decision, both
  scores lie in \<open>[0, 5]\<close>, the confidence lies in \<open>[0, 1]\<close> and the rationale has at most
  400 characters. When the decision or the labels are not as required, validation returns
  nothing.
\<close>

theorem validate_judgement_contract:
  "(validate_judgement repr fstr obj = Some j \<longrightarrow>
      canonical_decision repr obj = Some (decision j) \<and> decision j \<in> set DECISIONS
      \<and> labels_list_or_absent obj
      \<and> 0 \<le> arkts_score j \<and> arkts_score j \<le> 5
      \<and> 0 \<le> quality_score j \<and> quality_score j \<le> 5
      \<and> 0 \<le> confidence j \<and> confidence j \<le> 1
      \<and> length (rationale j) \<le> 400)
   \<and> (\<not> (decision_canonical repr obj \<and> labels_list_or_absent obj) \<longrightarrow>
        validate_judgement repr fstr obj = None)"
proof -
  have "validate_judgement repr fstr obj = None"
    if "\<not> (decision_canonical repr obj \<and> labels_list_or_absent obj)"
  proof (cases "validate_judgement repr fstr obj")
    case None
    then show ?thesis .
  next
    case (Some j')
    from validate_Some [OF this] that show ?thesis by simp
  qed
  then show ?thesis
    using validate_Some [of repr fstr obj j] validate_decision [of repr fstr obj j]
    by (auto simp: well_formed_def)
qed

lemma validate_example2:
  "validate_judgement (\<lambda>v. ''?'') (\<lambda>s. None)
     (JObj [(''decision'', JStr ''remove''), (''labels'', JNull), (''arkts_score'', JInt 9),
            (''quality_score'', JFloat (Fin (-1))), (''confidence'', JFloat (Fin (1/2))),
            (''rationale'', JStr ''broken'')])
   = Some \<lparr>decision = ''REMOVE'', labels = [], arkts_score = 5, quality_score = 0,
           confidence = 1/2, rationale = ''broken''\<rparr>"
  by (simp add: validate_judgement_def validate_body_def py_upper_def py_strip_def is_space_def
      upper_char_def DECISIONS_def clamp_def py_min2_def py_max2_def)

theorem validate_judgement_contract_witness:
  "canonical_decision (\<lambda>v. ''?'')
     (JObj [(''decision'', JStr ''remove''), (''labels'', JNull), (''arkts_score'', JInt 9),
            (''quality_score'', JFloat (Fin (-1))), (''confidence'', JFloat (Fin (1/2))),
            (''rationale'', JStr ''broken'')]) = Some ''REMOVE''
   \<and> \<not> decision_canonical (\<lambda>v. ''?'') (JObj [(''decision'', JStr ''maybe'')])
   \<and> validate_judgement (\<lambda>v. ''?'') (\<lambda>s. None) (JObj [(''decision'', JStr ''maybe'')]) = None"
proof -
  have 1: "\<not> decision_canonical (\<lambda>v. ''?'') (JObj [(''decision'', JStr ''maybe'')])"
    by (simp add: decision_canonical_def py_upper_def py_strip_def is_space_def upper_char_def
        DECISIONS_def)
  show ?thesis
    using validate_judgement_contract [of "\<lambda>v. ''?''" "\<lambda>s. None"
     "JObj [(''decision'', JStr ''remove''), (''labels'', JNull), (''arkts_score'', JInt 9),
            (''quality_score'', JFloat (Fin (-1))), (''confidence'', JFloat (Fin (1/2))),
            (''rationale'', JStr ''broken'')]"
     "\<lparr>decision = ''REMOVE'', labels = [], arkts_score = 5, quality_score = 0,
           confidence = 1/2, rationale = ''broken''\<rparr>"]
     validate_judgement_contract [of "\<lambda>v. ''?''" "\<lambda>s. None" "JObj [(''decision'', JStr ''maybe'')]"]
     validate_example2 1
    by simp
qed

lemma consensus_with_nonempty:
  "js \<noteq> [] \<Longrightarrow> consensus_with tab js =
     (case final_decision_with tab (top_decisions js) of
           Inl e \<Rightarrow> Inl e
         | Inr final_decision \<Rightarrow>
            Inr \<lparr>decision = final_decision,
                 labels = sort (remdups (concat (map labels js))),
                 arkts_score = sum_list (map arkts_score js) / real (length js),
                 quality_score = sum_list (map quality_score js) / real (length js),
                 confidence = sum_list (map confidence js) / real (length js),
                 rationale = take 400 (py_join ''; '' (map rationale js))\<rparr>)"
  by (simp add: consensus_with_def)

lemma consensus_tie_most_severe:
  assumes tie: "length (top_decisions js) > 1"
    and valid: "\<forall>j \<in> set js. decision j \<in> set DECISIONS"
  shows "\<exists>c. consensus js = Inr c \<and> decision c \<in> set (top_decisions js)
           \<and> (\<forall>d \<in> set (top_decisions js). less_severe_eq SEVERITY d (decision c))"
proof -
  from tie have ne: "js \<noteq> []" by (auto simp: top_decisions_def count_votes_def)
  have sub: "set (top_decisions js) \<subseteq> set DECISIONS"
    using top_decisions_subset [of js] valid by auto
  from final_decision_SEVERITY_tie [OF tie top_decisions_distinct sub]
  obtain d where d: "final_decision_with SEVERITY (top_decisions js) = Inr d"
    "d \<in> set (top_decisions js)"
    "\<forall>d' \<in> set (top_decisions js). the (map_of SEVERITY d') \<le> the (map_of SEVERITY d)"
    by blast
  have "less_severe_eq SEVERITY d' d" if "d' \<in> set (top_decisions js)" for d'
  proof -
    from that sub d(2) have "map_of SEVERITY d' \<noteq> None" "map_of SEVERITY d \<noteq> None"
      using SEVERITY_dom by blast+
    with d(3) that show ?thesis by (auto simp: less_severe_eq_def)
  qed
  with d(1,2) show ?thesis by (simp add: consensus_nonempty [OF ne])
qed

lemma consensus_pair:
  assumes "decision j1 = ''KEEP''" "decision j2 = ''REMOVE''"
  shows "(\<exists>c. consensus [j1, j2] = Inr c \<and> decision c = ''REMOVE'')
       \<and> (\<exists>c. consensus [j2, j1] = Inr c \<and> decision c = ''REMOVE'')"
  using assms
  by (simp add: consensus_def consensus_with_def top_decisions_def count_votes_def
      final_decision_with_def SEVERITY_def py_sorted_rev_def Let_def)

lemma consensus_same_rank:
  assumes tie: "length (top_decisions js) > 1"
    and same: "\<forall>d \<in> set (top_decisions js). map_of tab d = Some r"
  shows "\<exists>c. consensus_with tab js = Inr c \<and> decision c = ''KEEP_WITH_TAG''"
proof -
  from tie have ne: "js \<noteq> []" by (auto simp: top_decisions_def count_votes_def)
  from tie have tne: "top_decisions js \<noteq> []" by auto
  from same have known: "\<forall>d \<in> set (top_decisions js). map_of tab d \<noteq> None" by simp
  have "map_of tab (hd (top_decisions js)) = Some r" "map_of tab (last (top_decisions js)) = Some r"
    using same tne by simp_all
  with final_decision_tie [OF tie known]
  have "final_decision_with tab (top_decisions js) = Inr ''KEEP_WITH_TAG''" by auto
  then show ?thesis by (simp add: consensus_with_nonempty [OF ne])
qed

text \<open>
  Claim C5. When several decisions tie for the most votes and all decisions are among the
  three known ones, consensus returns a tied decision that is at least as severe as every
  tied decision under \<open>SEVERITY\<close>. Two judgements with decisions KEEP and REMOVE, in either
  order, give REMOVE. The guard of the source is stated for an arbitrary severity table:
  whenever all tied decisions share one rank, the result is KEEP_WITH_TAG (with the
  table of the source no two decisions share a rank, lemma
  \<open>final_decision_SEVERITY_tie\<close>).
\<close>

theorem consensus_tie_break:
  "(length (top_decisions js) > 1 \<and> (\<forall>j \<in> set js. decision j \<in> set DECISIONS) \<longrightarrow>
      (\<exists>c. consensus js = Inr c \<and> decision c \<in> set (top_decisions js)
           \<and> (\<forall>d \<in> set (top_decisions js). less_severe_eq SEVERITY d (decision c))))
   \<and> (decision j1 = ''KEEP'' \<and> decision j2 = ''REMOVE'' \<longrightarrow>
        (\<exists>c. consensus [j1, j2] = Inr c \<and> decision c = ''REMOVE'')
      \<and> (\<exists>c. consensus [j2, j1] = Inr c \<and> decision c = ''REMOVE''))
   \<and> (length (top_decisions ks) > 1 \<and> (\<forall>d \<in> set (top_decisions ks). map_of tab d = Some r) \<longrightarrow>
        (\<exists>c. consensus_with tab ks = Inr c \<and> decision c = ''KEEP_WITH_TAG''))"
  using consensus_tie_most_severe [of js] consensus_pair [of j1 j2] consensus_same_rank [of ks tab r]
  by blast

lemma labels_union:
  "sort (remdups (concat (map labels js))) = sorted_list_of_set (\<Union>j \<in> set js. set (labels j))"
proof -
  have "set (concat (map labels js)) = (\<Union>j \<in> set js. set (labels j))" by auto
  then show ?thesis by (metis sorted_list_of_set_sort_remdups)
qed

lemma sum_list_perm:
  fixes f :: "Judgement \<Rightarrow> real"
  assumes "mset js = mset js'"
  shows "sum_list (map f js) = sum_list (map f js')"
proof -
  have "sum_list (map f js) = sum_mset (image_mset f (mset js))"
    by (metis mset_map sum_mset_sum_list)
  also have "\<dots> = sum_mset (image_mset f (mset js'))" using assms by simp
  also have "\<dots> = sum_list (map f js')" by (metis mset_map sum_mset_sum_list)
  finally show ?thesis .
qed

lemma consensus_perm:
  assumes perm: "mset js = mset js'"
  shows "map_sum id (\<lambda>c. c\<lparr>rationale := []\<rparr>) (consensus js)
       = map_sum id (\<lambda>c. c\<lparr>rationale := []\<rparr>) (consensus js')"
proof (cases "js = []")
  case True
  with perm have "js' = []" by simp
  with True show ?thesis by simp
next
  case False
  with perm have ne': "js' \<noteq> []" by auto
  have fd: "final_decision_with SEVERITY (top_decisions js)
          = final_decision_with SEVERITY (top_decisions js')"
    using top_decisions_distinct top_decisions_distinct top_decisions_perm [OF perm]
    by (rule final_decision_set)
  have lab: "sort (remdups (concat (map labels js))) = sort (remdups (concat (map labels js')))"
    by (simp add: labels_union mset_eq_setD [OF perm])
  have len: "length js = length js'" using perm by (rule mset_eq_length)
  show ?thesis
    unfolding consensus_nonempty [OF False] consensus_nonempty [OF ne'] fd lab len
      sum_list_perm [OF perm, of arkts_score] sum_list_perm [OF perm, of quality_score]
      sum_list_perm [OF perm, of confidence]
    by (cases "final_decision_with SEVERITY (top_decisions js')") simp_all
qed

text \<open>
  Claim C3, amended. For two lists of judgements that are permutations of each other,
  consensus raises the same error or returns judgements that agree in decision, labels,
  both scores and confidence (scores as exact means). The labels are the sorted set union
  of the replica labels. The rationale is left out of the agreement: for a non-empty
  list it is the first 400 characters of the rationales joined by \<^verbatim>\<open>"; "\<close> in the order
  of the list.
\<close>

theorem consensus_order_independent:
  assumes "mset js = mset js'"
  shows "map_sum id (\<lambda>c. c\<lparr>rationale := []\<rparr>) (consensus js)
       = map_sum id (\<lambda>c. c\<lparr>rationale := []\<rparr>) (consensus js')
    \<and> (\<forall>c. consensus js = Inr c \<longrightarrow>
          labels c = sorted_list_of_set (\<Union>j \<in> set js. set (labels j))
        \<and> (js \<noteq> [] \<longrightarrow> rationale c = take 400 (py_join ''; '' (map rationale js))))"
proof -
  have "labels c = sorted_list_of_set (\<Union>j \<in> set js. set (labels j))
        \<and> (js \<noteq> [] \<longrightarrow> rationale c = take 400 (py_join ''; '' (map rationale js)))"
    if "consensus js = Inr c" for c
  proof (cases "js = []")
    case True
    with that show ?thesis by (auto simp: consensus_def consensus_with_def)
  next
    case False
    from that show ?thesis
      unfolding consensus_nonempty [OF False]
      by (auto simp: labels_union split: sum.splits)
  qed
  with consensus_perm [OF assms] show ?thesis by blast
qed

text \<open>
  Claim C3 as stated fails on the rationale: the two orders of the same two judgements
  give the rationales \<^verbatim>\<open>a; b\<close> and \<^verbatim>\<open>b; a\<close>.
\<close>

theorem consensus_rationale_order_counterexample:
  "mset [\<lparr>decision = ''KEEP'', labels = [''x''], arkts_score = 3, quality_score = 3,
          confidence = 1 / 2, rationale = ''a''\<rparr>,
         \<lparr>decision = ''KEEP'', labels = [''x''], arkts_score = 3, quality_score = 3,
          confidence = 1 / 2, rationale = ''b''\<rparr>]
   = mset [\<lparr>decision = ''KEEP'', labels = [''x''], arkts_score = 3, quality_score = 3,
          confidence = 1 / 2, rationale = ''b''\<rparr>,
         \<lparr>decision = ''KEEP'', labels = [''x''], arkts_score = 3, quality_score = 3,
          confidence = 1 / 2, rationale = ''a''\<rparr>]
   \<and> consensus [\<lparr>decision = ''KEEP'', labels = [''x''], arkts_score = 3, quality_score = 3,
          confidence = 1 / 2, rationale = ''a''\<rparr>,
         \<lparr>decision = ''KEEP'', labels = [''x''], arkts_score = 3, quality_score = 3,
          confidence = 1 / 2, rationale = ''b''\<rparr>]
     = Inr \<lparr>decision = ''KEEP'', labels = [''x''], arkts_score = 3, quality_score = 3,
          confidence = 1 / 2, rationale = ''a; b''\<rparr>
   \<and> consensus [\<lparr>decision = ''KEEP'', labels = [''x''], arkts_score = 3, quality_score = 3,
          confidence = 1 / 2, rationale = ''b''\<rparr>,
         \<lparr>decision = ''KEEP'', labels = [''x''], arkts_score = 3, quality_score = 3,
          confidence = 1 / 2, rationale = ''a''\<rparr>]
     = Inr \<lparr>decision = ''KEEP'', labels = [''x''], arkts_score = 3, quality_score = 3,
          confidence = 1 / 2, rationale = ''b; a''\<rparr>"
  by (simp add: consensus_def consensus_with_def top_decisions_def count_votes_def
      final_decision_with_def Let_def)

theorem consensus_order_independent_witness:
  "map_sum id (\<lambda>c. c\<lparr>rationale := []\<rparr>)
     (consensus [\<lparr>decision = ''KEEP'', labels = [''y'', ''x''], arkts_score = 2, quality_score = 3,
          confidence = 1 / 2, rationale = ''a''\<rparr>,
         \<lparr>decision = ''REMOVE'', labels = [''x''], arkts_score = 4, quality_score = 3,
          confidence = 1, rationale = ''b''\<rparr>])
   = map_sum id (\<lambda>c. c\<lparr>rationale := []\<rparr>)
     (consensus [\<lparr>decision = ''REMOVE'', labels = [''x''], arkts_score = 4, quality_score = 3,
          confidence = 1, rationale = ''b''\<rparr>,
        \<lparr>decision = ''KEEP'', labels = [''y'', ''x''], arkts_score = 2, quality_score = 3,
          confidence = 1 / 2, rationale = ''a''\<rparr>])"
  using consensus_order_independent [of
     "[\<lparr>decision = ''KEEP'', labels = [''y'', ''x''], arkts_score = 2, quality_score = 3,
          confidence = 1 / 2, rationale = ''a''\<rparr>,
         \<lparr>decision = ''REMOVE'', labels = [''x''], arkts_score = 4, quality_score = 3,
          confidence = 1, rationale = ''b''\<rparr>]"
     "[\<lparr>decision = ''REMOVE'', labels = [''x''], arkts_score = 4, quality_score = 3,
          confidence = 1, rationale = ''b''\<rparr>,
        \<lparr>decision = ''KEEP'', labels = [''y'', ''x''], arkts_score = 2, quality_score = 3,
          confidence = 1 / 2, rationale = ''a''\<rparr>]"]
  by (simp add: add_mset_commute)

theorem consensus_tie_break_witness:
  "(\<exists>c. consensus [\<lparr>decision = ''KEEP'', labels = [], arkts_score = 2, quality_score = 3,
          confidence = 1 / 2, rationale = ''a''\<rparr>,
         \<lparr>decision = ''REMOVE'', labels = [], arkts_score = 4, quality_score = 3,
          confidence = 1, rationale = ''b''\<rparr>] = Inr c \<and> decision c = ''REMOVE'')
  \<and> (\<exists>c. consensus_with [(''KEEP'', 0), (''REMOVE'', 0)]
        [\<lparr>decision = ''KEEP'', labels = [], arkts_score = 2, quality_score = 3,
          confidence = 1 / 2, rationale = ''a''\<rparr>,
         \<lparr>decision = ''REMOVE'', labels = [], arkts_score = 4, quality_score = 3,
          confidence = 1, rationale = ''b''\<rparr>] = Inr c \<and> decision c = ''KEEP_WITH_TAG'')"
proof -
  let ?k = "\<lparr>decision = ''KEEP'', labels = [], arkts_score = 2, quality_score = 3,
          confidence = 1 / 2, rationale = ''a''\<rparr>"
  let ?r = "\<lparr>decision = ''REMOVE'', labels = [], arkts_score = 4, quality_score = 3,
          confidence = 1, rationale = ''b''\<rparr>"
  have tops: "top_decisions [?k, ?r] = [''KEEP'', ''REMOVE'']"
    by (simp add: top_decisions_def count_votes_def Let_def)
  have valid: "\<forall>j \<in> set [?k, ?r]. decision j \<in> set DECISIONS" by (simp add: DECISIONS_def)
  have same: "\<forall>d \<in> set (top_decisions [?k, ?r]). map_of [(''KEEP'', 0), (''REMOVE'', 0::int)] d = Some 0"
    by (simp add: tops)
  from consensus_tie_break [of "[?k, ?r]" ?k ?r "[?k, ?r]" "[(''KEEP'', 0), (''REMOVE'', 0)]" 0]
    tops valid same
  show ?thesis by simp
qed

lemma brace_matching_no_parse: "(\<forall>chunk. loads chunk = None) \<Longrightarrow> brace_matching loads s = None"
  by (induction s) (auto split: option.splits)

lemma brace_matching_no_brace: "CHR ''{'' \<notin> set s \<Longrightarrow> brace_matching loads s = None"
  by (induction s) auto

lemma json_line_search_no_brace: "CHR ''{'' \<notin> set s \<Longrightarrow> json_line_search s = None"
proof -
  assume "CHR ''{'' \<notin> set s"
  then have dw: "dropWhile (\<lambda>c. c \<noteq> CHR ''{'') s = []" by (induction s) auto
  show ?thesis unfolding json_line_search_def Let_def dw by simp
qed

lemma py_strip_subset: "set (py_strip s) \<subseteq> set s"
proof -
  have "set (py_strip s) \<subseteq> set (dropWhile is_space s)"
    unfolding py_strip_def using set_dropWhileD [of _ is_space "rev (dropWhile is_space s)"] by auto
  also have "\<dots> \<subseteq> set s" using set_dropWhileD [of _ is_space s] by auto
  finally show ?thesis .
qed

lemma py_split_from_subset:
  "set (concat (py_split_from sep acc s)) \<subseteq> set acc \<union> set s"
proof (induction sep acc s rule: py_split_from.induct)
  case (1 sep acc s)
  show ?case
  proof (cases s)
    case Nil
    then show ?thesis by (subst py_split_from.simps) simp
  next
    case (Cons c cs)
    show ?thesis
    proof (cases "sep \<noteq> [] \<and> take (length sep) s = sep")
      case True
      with "1.IH"(1) [OF Cons] have "set (concat (py_split_from sep [] (drop (length sep) s)))
          \<subseteq> set (drop (length sep) s)" by simp
      moreover have "set (drop (length sep) s) \<subseteq> set s" by (rule set_drop_subset)
      ultimately show ?thesis using True Cons
        by (subst py_split_from.simps) auto
    next
      case False
      with "1.IH"(2) [OF Cons] have "set (concat (py_split_from sep (c # acc) cs))
          \<subseteq> set (c # acc) \<union> set cs" by simp
      then show ?thesis using False Cons
        by (subst py_split_from.simps) auto
    qed
  qed
qed

lemma py_join_subset: "set (py_join sep xs) \<subseteq> set sep \<union> set (concat xs)"
  by (induction sep xs rule: py_join.induct) auto

lemma strip_fences_subset: "set (strip_fences s) \<subseteq> insert (CHR 0x0A) (set s)"
proof (cases "take 3 s = FENCE \<and> length (py_split FENCE s) \<ge> 3")
  case True
  let ?parts = "py_split FENCE s"
  have "set (tl xs) \<subseteq> set xs" for xs :: "string list" by (cases xs) auto
  moreover have "set (butlast ?parts) \<subseteq> set ?parts" by (auto dest: in_set_butlastD)
  ultimately have "set (tl (butlast ?parts)) \<subseteq> set ?parts" by blast
  then have "set (concat (tl (butlast ?parts))) \<subseteq> set (concat ?parts)" by auto
  also have "\<dots> \<subseteq> set s" using py_split_from_subset [of FENCE "[]" s] by (simp add: py_split_def)
  finally have "set (concat (tl (butlast ?parts))) \<subseteq> set s" .
  with py_join_subset [of "[CHR 0x0A]" "tl (butlast ?parts)"]
  have "set (py_join [CHR 0x0A] (tl (butlast ?parts))) \<subseteq> insert (CHR 0x0A) (set s)"
    by fastforce
  with py_strip_subset [of "py_join [CHR 0x0A] (tl (butlast ?parts))"] True show ?thesis
    by (auto simp: strip_fences_def Let_def)
next
  case False
  then show ?thesis by (auto simp: strip_fences_def Let_def)
qed

lemma extract_no_brace:
  assumes "CHR ''{'' \<notin> set raw_text"
  shows "extract_json_object loads raw_text = None"
proof -
  let ?s = "strip_fences (py_strip raw_text)"
  have "set ?s \<subseteq> insert (CHR 0x0A) (set raw_text)"
    using strip_fences_subset [of "py_strip raw_text"] py_strip_subset [of raw_text] by auto
  with assms have nb: "CHR ''{'' \<notin> set ?s" by auto
  show ?thesis
    by (simp add: extract_json_object_def Let_def json_line_search_no_brace [OF nb]
        brace_matching_no_brace [OF nb])
qed

lemma extract_no_parse:
  assumes "\<forall>chunk. loads chunk = None"
  shows "extract_json_object loads raw_text = None"
  using assms by (simp add: extract_json_object_def Let_def brace_matching_no_parse split: option.splits)

text \<open>
  Claim C4. When no JSON object can be extracted from the raw text and validated, the step
  from the text to a Judgement (a total function: every exception of extraction and
  validation is caught) gives the placeholder with decision KEEP_WITH_TAG, the single label
  PARSE_ERROR, both scores 3.0 and confidence 0.3. This is the case for every text without
  an opening brace, and for every text when no candidate parses.
\<close>

theorem malformed_text_fallback:
  "(no_valid_object loads repr fstr raw_text \<longrightarrow>
      judgement_of_text loads repr fstr raw_text =
        \<lparr>decision = ''KEEP_WITH_TAG'', labels = [''PARSE_ERROR''], arkts_score = 3,
         quality_score = 3, confidence = 3 / 10, rationale = ''Failed to parse model JSON''\<rparr>
      \<and> confidence (judgement_of_text loads repr fstr raw_text) \<le> 3 / 10)
   \<and> (CHR ''{'' \<notin> set raw_text \<longrightarrow> no_valid_object loads repr fstr raw_text)
   \<and> ((\<forall>chunk. loads chunk = None) \<longrightarrow> no_valid_object loads repr fstr raw_text)"
proof -
  have "judgement_of_text loads repr fstr raw_text = parse_error_judgement"
    if "no_valid_object loads repr fstr raw_text"
    using that by (auto simp: no_valid_object_def judgement_of_text_def split: option.splits)
  then show ?thesis
    using extract_no_brace [of raw_text loads] extract_no_parse [of loads raw_text]
    by (auto simp: parse_error_judgement_def no_valid_object_def)
qed

theorem malformed_text_fallback_witness:
  "judgement_of_text (\<lambda>s. if s = ''{}'' then Some (JObj []) else None) (\<lambda>v. ''?'') (\<lambda>s. None)
      ''Sorry, I cannot judge this snippet.'' =
        \<lparr>decision = ''KEEP_WITH_TAG'', labels = [''PARSE_ERROR''], arkts_score = 3,
         quality_score = 3, confidence = 3 / 10, rationale = ''Failed to parse model JSON''\<rparr>
   \<and> judgement_of_text (\<lambda>s. None) (\<lambda>v. ''?'') (\<lambda>s. None) ''{not json}'' =
        \<lparr>decision = ''KEEP_WITH_TAG'', labels = [''PARSE_ERROR''], arkts_score = 3,
         quality_score = 3, confidence = 3 / 10, rationale = ''Failed to parse model JSON''\<rparr>"
  using malformed_text_fallback [of "\<lambda>s. if s = ''{}'' then Some (JObj []) else None" "\<lambda>v. ''?''"
      "\<lambda>s. None" "''Sorry, I cannot judge this snippet.''"]
    malformed_text_fallback [of "\<lambda>s. None" "\<lambda>v. ''?''" "\<lambda>s. None" "''{not json}''"]
  by simp


end
